theory Spec2Isabelle
  imports Main
begin

section \<open>The CSV column rewrite of \<^verbatim>\<open>fix_csv.py\<close>\<close>

text \<open>
  The script opens a source and a destination file, reads the source through
  \<^verbatim>\<open>csv.reader\<close>, copies the header, looks the column
  \<^verbatim>\<open>Variant Fulfillment Service\<close> up in it, and then writes every further row
  through \<^verbatim>\<open>csv.writer\<close> after storing \<^verbatim>\<open>manual\<close> in that column when the
  row is long enough. Two lines are printed when the pass has completed.

  The parser and the serialiser belong to Python's standard library, not to the script.
  The script's own code is modelled over what it sees of them: a row is the list of text
  fields that the parser hands over, the reader is the finite sequence of what iterating
  it produces (a row, or an exception), and the destination is the sequence of rows
  handed to \<^verbatim>\<open>writer.writerow\<close>, in the order of the calls. How the reader arises
  from the text of the source file, through text-mode reading and the parser's default
  dialect, and which text the writer's default dialect puts into the destination for the
  rows it is handed, are modelled separately, so that a run can also be followed from the
  text of the source to the text of the destination.

  Text is kept as the bytes of its UTF-8 encoding, which is what the two files hold. The
  constants of the script are ASCII, two fields are equal exactly when their encodings
  are, and the comma, the quote and the line breaks that the library looks for are single
  bytes that occur inside no other character's encoding. A character starts at every byte
  that is not a continuation byte, and this is how the parser's count of the characters
  of a field is followed. The functions on source text are for sources that decode; on
  one that does not, reading raises, which at the level of the reader is one of its
  exceptions.
\<close>

subsection \<open>Data\<close>

type_synonym row = "string list"

text \<open>
  The exceptions that can end the run once both files are open: \<^verbatim>\<open>next(reader)\<close> on
  an exhausted reader, \<^verbatim>\<open>header.index\<close> on a missing name, and what iterating the
  reader can raise: the parser's \<^verbatim>\<open>csv.Error\<close>, or a decoding error of the source
  file, which is read lazily.

  A reader is what its iteration produces, call by call: a row, or an exception. The end
  of the list is the reader's \<^verbatim>\<open>StopIteration\<close>; the same exception may also stand
  in the list, and means the same to whoever iterates.
\<close>

datatype error = StopIteration | ValueError | CsvError | UnicodeDecodeError

type_synonym reader = "(error + row) list"

text \<open>
  What a run leaves behind: the exception that ended it (\<open>None\<close> for a normal exit), the
  rows written to the destination, and the lines printed.
\<close>

record result =
  outcome :: "error option"
  destination :: "row list"
  console :: "string list"

subsection \<open>Constants of the script\<close>

definition output_file :: string where
  "output_file = ''product_template_final.csv''"

definition column_name :: string where
  "column_name = ''Variant Fulfillment Service''"

definition replacement :: string where
  "replacement = ''manual''"

subsection \<open>Library behaviour the script relies on\<close>

text \<open>
  \<^verbatim>\<open>list.index(x)\<close>: the position of the first element equal to \<open>x\<close>; it raises
  \<^verbatim>\<open>ValueError\<close> when there is none, which is \<open>None\<close> here.
\<close>

fun index :: "'a list \<Rightarrow> 'a \<Rightarrow> nat option" where
  "index [] x = None"
| "index (y # ys) x = (if y = x then Some 0 else map_option Suc (index ys x))"

text \<open>Decimal formatting of a non-negative integer, as an f-string does it.\<close>

definition digit :: "nat \<Rightarrow> char" where
  "digit d = ''0123456789'' ! d"

fun str :: "nat \<Rightarrow> string" where
  "str n = (if n < 10 then [digit n] else str (n div 10) @ [digit (n mod 10)])"

text \<open>
  The number that a string of decimal digits denotes. The script does not compute this;
  it says which number a printed numeral stands for.
\<close>

definition digit_value :: "char \<Rightarrow> nat" where
  "digit_value c = of_char c - 48"

definition decimal :: "string \<Rightarrow> nat" where
  "decimal s = foldl (\<lambda>n c. 10 * n + digit_value c) 0 s"

subsection \<open>The source file and the parser\<close>

text \<open>
  The source is opened in text mode with no \<^verbatim>\<open>newline\<close> argument, so every
  \<^verbatim>\<open>\r\n\<close> and every lone \<^verbatim>\<open>\r\<close> of the decoded text is read as \<^verbatim>\<open>\n\<close>, and
  iterating the file gives the lines, each with its closing \<^verbatim>\<open>\n\<close> (the last line may
  have none).
\<close>

abbreviation LF :: char where "LF \<equiv> CHR 0x0A"
abbreviation CR :: char where "CR \<equiv> CHR 0x0D"

fun universal_newlines :: "string \<Rightarrow> string" where
  "universal_newlines [] = []"
| "universal_newlines [c] = [if c = CR then LF else c]"
| "universal_newlines (c # d # cs) =
     (if c = CR then LF # (if d = LF then universal_newlines cs else universal_newlines (d # cs))
      else c # universal_newlines (d # cs))"

fun split_lines :: "string \<Rightarrow> string \<Rightarrow> string list" where
  "split_lines cur [] = (if cur = [] then [] else [cur])"
| "split_lines cur (c # cs) =
     (if c = LF then (cur @ [c]) # split_lines [] cs else split_lines (cur @ [c]) cs)"

definition infile_lines :: "string \<Rightarrow> string list" where
  "infile_lines text = split_lines [] (universal_newlines text)"

text \<open>
  A file opened with \<^verbatim>\<open>newline=''\<close>, as the csv module asks for its files and as the
  script opens the destination, gives the same lines with their line breaks as they are
  in the file: a line ends after \<^verbatim>\<open>\n\<close>, after \<^verbatim>\<open>\r\n\<close> or after a lone \<^verbatim>\<open>\r\<close>.
  The script does not read the source this way; the rows of the source read this way are
  what the source holds, with every field as it stands in the file.
\<close>

fun untranslated_split :: "string \<Rightarrow> string \<Rightarrow> string list" where
  "untranslated_split cur [] = (if cur = [] then [] else [cur])"
| "untranslated_split cur [c] = [cur @ [c]]"
| "untranslated_split cur (c # d # cs) =
     (if c = LF then (cur @ [c]) # untranslated_split [] (d # cs)
      else if c = CR then
        (if d = LF then (cur @ [c, d]) # untranslated_split [] cs
         else (cur @ [c]) # untranslated_split [] (d # cs))
      else untranslated_split (cur @ [c]) (d # cs))"

definition untranslated_lines :: "string \<Rightarrow> string list" where
  "untranslated_lines text = untranslated_split [] text"

text \<open>
  \<^verbatim>\<open>csv.reader(infile)\<close> is the standard library's parser in its default dialect:
  delimiter \<^verbatim>\<open>,\<close>, quote character \<^verbatim>\<open>"\<close>, doubled quotes inside quoted fields, no
  escape character, not strict. Its state machine is followed here state by state; the
  three states that only an escape character reaches are left out. The parser takes the
  characters of each line and then an end-of-line mark (\<open>None\<close>), and hands a record
  over when a line ends outside a quoted field. A field may hold at most \<open>field_limit\<close>
  characters: the parser counts them in \<open>field_len\<close> and refuses the character that
  would be one too many. Over UTF-8 bytes a character is counted, and can be refused, at
  its first byte; its continuation bytes follow it into the field.
\<close>

abbreviation delimiter :: char where "delimiter \<equiv> CHR '',''"
abbreviation quotechar :: char where "quotechar \<equiv> CHR 0x22"

datatype parser_state =
  START_RECORD | START_FIELD | IN_FIELD | IN_QUOTED_FIELD | QUOTE_IN_QUOTED_FIELD | EAT_CRNL

record parser =
  state :: parser_state
  row_fields :: row
  field :: string
  field_len :: nat

definition is_continuation :: "char \<Rightarrow> bool" where
  "is_continuation c \<longleftrightarrow> digit7 c \<and> \<not> digit6 c"

definition code_points :: "string \<Rightarrow> nat" where
  "code_points s = length (filter (\<lambda>c. \<not> is_continuation c) s)"

definition field_limit :: nat where
  "field_limit = 131072"

definition parse_reset :: parser where
  "parse_reset = \<lparr>state = START_RECORD, row_fields = [], field = [], field_len = 0\<rparr>"

definition parse_save_field :: "parser \<Rightarrow> parser" where
  "parse_save_field p =
     p\<lparr>row_fields := row_fields p @ [field p], field := [], field_len := 0\<rparr>"

definition parse_add_char :: "parser \<Rightarrow> char \<Rightarrow> error + parser" where
  "parse_add_char p c =
     (if is_continuation c then Inr (p\<lparr>field := field p @ [c]\<rparr>)
      else if field_len p \<ge> field_limit then Inl CsvError
      else Inr (p\<lparr>field := field p @ [c], field_len := Suc (field_len p)\<rparr>))"

definition then_state :: "error + parser \<Rightarrow> parser_state \<Rightarrow> error + parser" where
  "then_state r s = (case r of Inl e \<Rightarrow> Inl e | Inr p \<Rightarrow> Inr (p\<lparr>state := s\<rparr>))"

definition start_field :: "parser \<Rightarrow> char option \<Rightarrow> error + parser" where
  "start_field p c =
     (case c of
        None \<Rightarrow> Inr ((parse_save_field p)\<lparr>state := START_RECORD\<rparr>)
      | Some ch \<Rightarrow>
          if ch = LF \<or> ch = CR then Inr ((parse_save_field p)\<lparr>state := EAT_CRNL\<rparr>)
          else if ch = quotechar then Inr (p\<lparr>state := IN_QUOTED_FIELD\<rparr>)
          else if ch = delimiter then Inr (parse_save_field p)
          else then_state (parse_add_char p ch) IN_FIELD)"

definition parse_process_char :: "parser \<Rightarrow> char option \<Rightarrow> error + parser" where
  "parse_process_char p c =
     (case state p of
        START_RECORD \<Rightarrow>
          (case c of
             None \<Rightarrow> Inr p
           | Some ch \<Rightarrow>
               if ch = LF \<or> ch = CR then Inr (p\<lparr>state := EAT_CRNL\<rparr>)
               else start_field (p\<lparr>state := START_FIELD\<rparr>) c)
      | START_FIELD \<Rightarrow> start_field p c
      | IN_FIELD \<Rightarrow>
          (case c of
             None \<Rightarrow> Inr ((parse_save_field p)\<lparr>state := START_RECORD\<rparr>)
           | Some ch \<Rightarrow>
               if ch = LF \<or> ch = CR then Inr ((parse_save_field p)\<lparr>state := EAT_CRNL\<rparr>)
               else if ch = delimiter then Inr ((parse_save_field p)\<lparr>state := START_FIELD\<rparr>)
               else parse_add_char p ch)
      | IN_QUOTED_FIELD \<Rightarrow>
          (case c of
             None \<Rightarrow> Inr p
           | Some ch \<Rightarrow>
               if ch = quotechar then Inr (p\<lparr>state := QUOTE_IN_QUOTED_FIELD\<rparr>)
               else parse_add_char p ch)
      | QUOTE_IN_QUOTED_FIELD \<Rightarrow>
          (case c of
             None \<Rightarrow> Inr ((parse_save_field p)\<lparr>state := START_RECORD\<rparr>)
           | Some ch \<Rightarrow>
               if ch = quotechar then then_state (parse_add_char p ch) IN_QUOTED_FIELD
               else if ch = delimiter then Inr ((parse_save_field p)\<lparr>state := START_FIELD\<rparr>)
               else if ch = LF \<or> ch = CR then Inr ((parse_save_field p)\<lparr>state := EAT_CRNL\<rparr>)
               else then_state (parse_add_char p ch) IN_FIELD)
      | EAT_CRNL \<Rightarrow>
          (case c of
             None \<Rightarrow> Inr (p\<lparr>state := START_RECORD\<rparr>)
           | Some ch \<Rightarrow> if ch = LF \<or> ch = CR then Inr p else Inl CsvError))"

fun process_chars :: "parser \<Rightarrow> string \<Rightarrow> error + parser" where
  "process_chars p [] = parse_process_char p None"
| "process_chars p (c # cs) =
     (case parse_process_char p (Some c) of
        Inl e \<Rightarrow> Inl e
      | Inr p' \<Rightarrow> process_chars p' cs)"

text \<open>
  Iterating the reader: lines are consumed until one ends with the parser back in
  \<open>START_RECORD\<close>, and the fields gathered are the record. When the lines run out inside
  a quoted field, the non-strict parser closes the field and hands the record over
  instead of raising.
\<close>

fun csv_reader_from :: "parser \<Rightarrow> string list \<Rightarrow> reader" where
  "csv_reader_from p [] =
     (if field_len p \<noteq> 0 \<or> state p = IN_QUOTED_FIELD
      then [Inr (row_fields (parse_save_field p))]
      else [])"
| "csv_reader_from p (line # lines) =
     (case process_chars p line of
        Inl e \<Rightarrow> [Inl e]
      | Inr p' \<Rightarrow>
          if state p' = START_RECORD then Inr (row_fields p') # csv_reader_from parse_reset lines
          else csv_reader_from p' lines)"

definition csv_reader :: "string list \<Rightarrow> reader" where
  "csv_reader lines = csv_reader_from parse_reset lines"


subsection \<open>The serialiser\<close>

text \<open>
  \<^verbatim>\<open>csv.writer(outfile)\<close> in its default dialect: a field is put between quotes, with
  its quotes doubled, when it holds a comma, a quote or a line break, and is written as
  it is otherwise; the fields are joined by commas; a row that consists of one empty
  field is written as two quotes; every row ends with \<^verbatim>\<open>\r\n\<close>. The destination is
  opened with \<^verbatim>\<open>newline=''\<close>, so this is what the file receives.
\<close>

definition join_append :: "string \<Rightarrow> string" where
  "join_append f =
     (if list_ex (\<lambda>c. c = delimiter \<or> c = quotechar \<or> c = CR \<or> c = LF) f
      then quotechar # concat (map (\<lambda>c. if c = quotechar then [c, c] else [c]) f) @ [quotechar]
      else f)"

fun join_fields :: "string list \<Rightarrow> string" where
  "join_fields [] = []"
| "join_fields [f] = f"
| "join_fields (f # g # fs) = f @ delimiter # join_fields (g # fs)"

definition writerow :: "row \<Rightarrow> string" where
  "writerow row =
     (if row \<noteq> [] \<and> join_fields (map join_append row) = [] then [quotechar, quotechar]
      else join_fields (map join_append row)) @ [CR, LF]"

subsection \<open>The pass\<close>

text \<open>
  The body of the loop:
  \<^verbatim>\<open>if len(row) > fulfillment_col: row[fulfillment_col] = 'manual'\<close>.
\<close>

definition process_row :: "nat \<Rightarrow> row \<Rightarrow> row" where
  "process_row fulfillment_col row =
     (if length row > fulfillment_col then row[fulfillment_col := replacement] else row)"

text \<open>
  \<^verbatim>\<open>for row in reader: ...; writer.writerow(row)\<close>. The accumulator is the destination
  so far. The \<^verbatim>\<open>for\<close> statement takes \<^verbatim>\<open>StopIteration\<close> as the end of the
  iteration and goes on after the loop; any other exception of the reader leaves the loop
  and the script with what has been written.
\<close>

fun row_loop :: "nat \<Rightarrow> reader \<Rightarrow> row list \<Rightarrow> error option \<times> row list" where
  "row_loop fulfillment_col [] out = (None, out)"
| "row_loop fulfillment_col (Inl e # rest) out =
     (if e = StopIteration then (None, out) else (Some e, out))"
| "row_loop fulfillment_col (Inr row # rest) out =
     row_loop fulfillment_col rest (out @ [process_row fulfillment_col row])"

text \<open>The two lines printed after the \<^verbatim>\<open>with\<close> block.\<close>

definition saved_message :: string where
  "saved_message = [CHR 0xE2, CHR 0x9C, CHR 0x85] @ '' Fixed CSV saved to '' @ output_file"

definition changed_message :: "nat \<Rightarrow> string" where
  "changed_message fulfillment_col =
     ''   Changed column '' @ str fulfillment_col @ '' ('' @ column_name @ '') to ''
       @ [CHR 0x27] @ replacement @ [CHR 0x27]"

text \<open>
  The whole script, from \<^verbatim>\<open>header = next(reader)\<close> on. The header is written before
  the column is looked up, and nothing catches an exception.
\<close>

definition fix_csv :: "reader \<Rightarrow> result" where
  "fix_csv reader =
     (case reader of
        [] \<Rightarrow> \<lparr>outcome = Some StopIteration, destination = [], console = []\<rparr>
      | Inl e # rest \<Rightarrow> \<lparr>outcome = Some e, destination = [], console = []\<rparr>
      | Inr header # rest \<Rightarrow>
          (case index header column_name of
             None \<Rightarrow> \<lparr>outcome = Some ValueError, destination = [header], console = []\<rparr>
           | Some fulfillment_col \<Rightarrow>
               (case row_loop fulfillment_col rest [header] of
                  (Some e, out) \<Rightarrow> \<lparr>outcome = Some e, destination = out, console = []\<rparr>
                | (None, out) \<Rightarrow>
                    \<lparr>outcome = None, destination = out,
                     console = [saved_message, changed_message fulfillment_col]\<rparr>)))"

text \<open>The script on the text of the source file, and the text it leaves in the destination.\<close>

definition script :: "string \<Rightarrow> result" where
  "script text = fix_csv (csv_reader (infile_lines text))"

definition outfile :: "result \<Rightarrow> string" where
  "outfile r = concat (map writerow (destination r))"


text \<open>
  A source whose second row is shorter than the column's position and has a quoted field,
  and one whose header has a quoted field. Both end their lines with \<^verbatim>\<open>\r\n\<close>, as
  the writer does.
\<close>

definition quoted_row_text :: string where
  "quoted_row_text =
     ''Title,Price,Variant Fulfillment Service'' @ [CR, LF] @
     [quotechar] @ ''Gadget'' @ [quotechar] @ '',9'' @ [CR, LF]"

definition quoted_header_text :: string where
  "quoted_header_text =
     [quotechar] @ ''Title'' @ [quotechar] @ '',Variant Fulfillment Service'' @ [CR, LF]"

text \<open>
  A source whose data row has a quoted field with a line break inside, written
  \<^verbatim>\<open>\r\n\<close> like the line ends of the source.
\<close>

definition embedded_crlf_text :: string where
  "embedded_crlf_text =
     ''Title,Variant Fulfillment Service'' @ [CR, LF] @
     [quotechar] @ ''line1'' @ [CR, LF] @ ''line2'' @ [quotechar] @ '',third-party'' @ [CR, LF]"

subsection \<open>What the reader yields before it fails\<close>

text \<open>
  The rows that iterating the reader produces up to its first exception, or up to its end.
  The script does not compute this; it is used to say what a run has written.
\<close>

fun rows_read :: "reader \<Rightarrow> row list" where
  "rows_read [] = []"
| "rows_read (Inl e # rest) = []"
| "rows_read (Inr row # rest) = row # rows_read rest"

text \<open>
  The all-or-nothing reading of a run: it ends normally with one output row for every
  row read, or it ends in an exception with an empty destination.
\<close>

definition all_or_nothing :: "reader \<Rightarrow> bool" where
  "all_or_nothing reader =
     (case outcome (fix_csv reader) of
        None \<Rightarrow> length (destination (fix_csv reader)) = length (rows_read reader)
      | Some e \<Rightarrow> destination (fix_csv reader) = [])"

declare str.simps [simp del]

section \<open>Properties of the library functions\<close>

lemma index_Some_first:
  "index xs x = Some i \<Longrightarrow> i < length xs \<and> xs ! i = x \<and> x \<notin> set (take i xs)"
proof (induction xs arbitrary: i)
  case Nil
  then show ?case by simp
next
  case (Cons y ys)
  show ?case
  proof (cases "y = x")
    case True
    with Cons.prems show ?thesis by simp
  next
    case False
    with Cons.prems obtain j where j: "index ys x = Some j" "i = Suc j"
      by auto
    from Cons.IH [OF j(1)] False j(2) show ?thesis by simp
  qed
qed

lemma index_None_iff: "index xs x = None \<longleftrightarrow> x \<notin> set xs"
  by (induction xs) auto

lemma index_firstI:
  "p < length xs \<Longrightarrow> xs ! p = x \<Longrightarrow> (\<forall>j<p. xs ! j \<noteq> x) \<Longrightarrow> index xs x = Some p"
proof (induction xs arbitrary: p)
  case Nil
  then show ?case by simp
next
  case (Cons y ys)
  show ?case
  proof (cases p)
    case 0
    with Cons.prems show ?thesis by simp
  next
    case (Suc q)
    from Cons.prems(3) Suc have "(y # ys) ! 0 \<noteq> x" by blast
    then have ne: "y \<noteq> x" by simp
    have "\<forall>j<q. ys ! j \<noteq> x"
    proof (intro allI impI)
      fix j assume "j < q"
      then have "Suc j < p" using Suc by simp
      with Cons.prems(3) have "(y # ys) ! Suc j \<noteq> x" by blast
      then show "ys ! j \<noteq> x" by simp
    qed
    moreover from Cons.prems Suc have "q < length ys" "ys ! q = x" by simp_all
    ultimately have "index ys x = Some q" by (rule Cons.IH [rotated 2])
    with ne Suc show ?thesis by simp
  qed
qed

lemma str_examples: "str 0 = ''0''" "str 7 = ''7''" "str 12 = ''12''" "str 305 = ''305''"
  by (simp_all add: str.simps digit_def)

text \<open>The numeral that \<open>str\<close> prints is made of decimal digits and denotes the number printed.\<close>

lemma digit_cases:
  assumes "d < 10"
  shows "d = 0 \<or> d = 1 \<or> d = 2 \<or> d = 3 \<or> d = 4 \<or> d = 5 \<or> d = 6 \<or> d = 7 \<or> d = 8
    \<or> d = (9::nat)"
  using assms by arith

lemma digit_value_digit: "d < 10 \<Longrightarrow> digit_value (digit d) = d"
  using digit_cases [of d] by (auto simp add: digit_value_def digit_def)

lemma digit_is_digit: "d < 10 \<Longrightarrow> digit d \<in> set ''0123456789''"
  using digit_cases [of d] by (auto simp add: digit_def)

lemma decimal_snoc: "decimal (s @ [c]) = 10 * decimal s + digit_value c"
  by (simp add: decimal_def)

lemma decimal_str: "decimal (str n) = n"
proof (induction n rule: str.induct)
  case (1 n)
  show ?case
  proof (cases "n < 10")
    case True
    then show ?thesis by (simp add: str.simps [of n] decimal_def digit_value_digit)
  next
    case False
    with "1" have "decimal (str (n div 10)) = n div 10" by simp
    with False show ?thesis
      by (simp add: str.simps [of n] decimal_snoc digit_value_digit)
  qed
qed

lemma str_digits: "set (str n) \<subseteq> set ''0123456789''"
proof (induction n rule: str.induct)
  case (1 n)
  show ?case
  proof (cases "n < 10")
    case True
    with digit_is_digit [of n] show ?thesis by (simp add: str.simps [of n])
  next
    case False
    with "1" have "set (str (n div 10)) \<subseteq> set ''0123456789''" by simp
    moreover have "digit (n mod 10) \<in> set ''0123456789''" by (rule digit_is_digit) simp
    ultimately show ?thesis using False by (simp add: str.simps [of n])
  qed
qed

lemma changed_message_example:
  "changed_message 1 =
     ''   Changed column 1 (Variant Fulfillment Service) to '' @ [CHR 0x27] @ ''manual'' @ [CHR 0x27]"
  by (simp add: changed_message_def column_name_def replacement_def str.simps digit_def)

lemmas parser_defs = csv_reader_def infile_lines_def untranslated_lines_def parse_reset_def
  parse_process_char_def start_field_def then_state_def parse_add_char_def parse_save_field_def
  field_limit_def is_continuation_def

lemmas writer_defs = outfile_def writerow_def join_append_def

text \<open>The parser on small sources: a quoted field with a line break, blank lines, a doubled quote.\<close>

lemma csv_reader_examples:
  "csv_reader (infile_lines (''a,'' @ [quotechar] @ ''b'' @ [CR, LF] @ ''c'' @ [quotechar] @ '',d'' @ [LF]))
     = [Inr [''a'', ''b'' @ [LF] @ ''c'', ''d'']]"
  "csv_reader (infile_lines (''a'' @ [LF, LF] @ ''b'')) = [Inr [''a''], Inr [], Inr [''b'']]"
  "csv_reader (infile_lines ([quotechar] @ ''x'' @ [quotechar, quotechar, quotechar] @ '','' @ [LF]))
     = [Inr [''x'' @ [quotechar], []]]"
  "csv_reader (infile_lines []) = []"
  by (simp_all add: parser_defs)

text \<open>A line break left inside a line, which text mode never delivers, makes the parser raise.\<close>

lemma csv_reader_raises_example: "csv_reader [''a'' @ [CR] @ ''b'', ''c,d''] = [Inl CsvError]"
  by (simp add: parser_defs)

text \<open>The serialiser on small rows.\<close>

lemma writerow_examples:
  "writerow [''Gadget'', ''9''] = ''Gadget,9'' @ [CR, LF]"
  "writerow [''a,b'', ''c'' @ [quotechar] @ ''d''] =
     [quotechar] @ ''a,b'' @ [quotechar] @ '','' @
     [quotechar] @ ''c'' @ [quotechar, quotechar] @ ''d'' @ [quotechar] @ [CR, LF]"
  "writerow [] = [CR, LF]"
  "writerow [[]] = [quotechar, quotechar, CR, LF]"
  "writerow [[], []] = '','' @ [CR, LF]"
  by (simp_all add: writer_defs)

text \<open>The example of the specification.\<close>

lemma script_example:
  "destination (script (''Title,Variant Fulfillment Service,Price'' @ [LF] @
      ''Widget,third-party,10'' @ [LF] @ ''Gadget,9'' @ [LF]))
   = [[''Title'', ''Variant Fulfillment Service'', ''Price''],
      [''Widget'', ''manual'', ''10''],
      [''Gadget'', ''manual'']]"
  by (simp add: script_def parser_defs fix_csv_def column_name_def process_row_def replacement_def)

section \<open>Properties of the loop\<close>

lemma process_row_length: "length (process_row c r) = length r"
  by (simp add: process_row_def)

lemma process_row_idem: "process_row c (process_row c r) = process_row c r"
  by (simp add: process_row_def)

text \<open>
  The assignment of the loop body leaves every other field of the row, as the reader
  yielded it, where it was.
\<close>

lemma process_row_other_fields: "j \<noteq> c \<Longrightarrow> process_row c r ! j = r ! j"
  by (simp add: process_row_def)

lemma row_loop_rows:
  "row_loop c (map Inr rows @ rest) out = row_loop c rest (out @ map (process_row c) rows)"
  by (induction rows arbitrary: out) simp_all

lemma row_loop_all_rows:
  "row_loop c (map Inr rows) out = (None, out @ map (process_row c) rows)"
  using row_loop_rows [of c rows "[]" out] by simp

lemma fix_csv_rows:
  assumes "index header column_name = Some c"
  shows "fix_csv (Inr header # map Inr data) =
    \<lparr>outcome = None, destination = header # map (process_row c) data,
     console = [saved_message, changed_message c]\<rparr>"
  using assms by (simp add: fix_csv_def row_loop_all_rows)

lemma row_loop_written:
  "snd (row_loop c rd out) = out @ map (process_row c) (rows_read rd)"
  by (induction c rd out rule: row_loop.induct) simp_all

lemma fix_csv_missing_column:
  assumes "column_name \<notin> set header"
  shows "fix_csv (Inr header # rest) =
    \<lparr>outcome = Some ValueError, destination = [header], console = []\<rparr>"
proof -
  from assms have "index header column_name = None"
    by (simp add: index_None_iff)
  then show ?thesis by (simp add: fix_csv_def)
qed



section \<open>The parser on the lines of a text-mode file\<close>

text \<open>
  Text mode delivers clean lines, and on clean lines the parser never meets a character
  after a line break, the one place where the default dialect raises on the shape of the
  text. What remains is the field limit, which a source of at most \<open>field_limit\<close>
  characters cannot reach. So on such a source the reader yields rows only, whatever the
  quoting looks like.
\<close>

lemma code_points_Nil [simp]: "code_points [] = 0"
  by (simp add: code_points_def)














section \<open>The claims\<close>

text \<open>
  C1. In a run over a header that holds the column and any data rows, every data row with
  more fields than the column's position comes out with \<^verbatim>\<open>manual\<close> at that position,
  whatever stood there.
\<close>

theorem long_row_gets_manual:
  assumes "index header column_name = Some c"
    and "i < length data"
    and "c < length (data ! i)"
  shows "destination (fix_csv (Inr header # map Inr data)) ! Suc i ! c = ''manual''"
  using assms by (simp add: fix_csv_rows process_row_def replacement_def)

theorem long_row_gets_manual_witness:
  "index [''Title'', ''Variant Fulfillment Service'', ''Price''] column_name = Some 1
   \<and> destination (fix_csv (Inr [''Title'', ''Variant Fulfillment Service'', ''Price''] #
        map Inr [[''Widget'', ''third-party'', ''10''], [''Gadget'', ''9'']])) ! Suc 1 ! 1
       = ''manual''"
proof -
  have h: "index [''Title'', ''Variant Fulfillment Service'', ''Price''] column_name = Some 1"
    by (simp add: column_name_def)
  from long_row_gets_manual [OF h, of 1 "[[''Widget'', ''third-party'', ''10''], [''Gadget'', ''9'']]"]
  show ?thesis using h by simp
qed

text \<open>
  C2. When the header does not hold the column name, the run ends in the lookup's
  \<^verbatim>\<open>ValueError\<close> with the header as the only row in the destination and nothing
  printed, whatever the reader would have produced next: no data row is read.
\<close>

theorem missing_column_fails_first:
  assumes "column_name \<notin> set header"
  shows "fix_csv (Inr header # rest) =
    \<lparr>outcome = Some ValueError, destination = [header], console = []\<rparr>"
  using assms by (rule fix_csv_missing_column)

theorem missing_column_fails_first_witness:
  "column_name \<notin> set [''Title'', ''Price'']
   \<and> fix_csv [Inr [''Title'', ''Price''], Inr [''Widget'', ''10''], Inl CsvError] =
       \<lparr>outcome = Some ValueError, destination = [[''Title'', ''Price'']], console = []\<rparr>"
proof -
  have h: "column_name \<notin> set [''Title'', ''Price'']"
    by (simp add: column_name_def)
  from missing_column_fails_first [OF h, of "[Inr [''Widget'', ''10''], Inl CsvError]"]
  show ?thesis using h by simp
qed

text \<open>
  C3, as stated: every run either produces the whole output or aborts with an empty
  destination. It fails on a header without the column: the header has been written when
  the lookup raises.
\<close>

theorem all_or_nothing_counterexample:
  "\<not> all_or_nothing [Inr [''Title'', ''Price''], Inr [''Widget'', ''10'']]"
  by (simp add: all_or_nothing_def fix_csv_def column_name_def)

text \<open>
  C3, amended: the destination always holds what was written before the run ended, with
  no cleanup: nothing when no header could be read, the header alone when the column is
  missing, and otherwise the header followed by the processed form of every row read.
  The run either ends normally with one output row for every row read, or ends in an
  exception with nothing printed and at most the rows read so far in the destination.
\<close>

theorem whole_output_or_written_prefix:
  "destination (fix_csv reader) =
     (case rows_read reader of
        [] \<Rightarrow> []
      | header # data \<Rightarrow>
          (case index header column_name of
             None \<Rightarrow> [header]
           | Some c \<Rightarrow> header # map (process_row c) data))
   \<and> ((outcome (fix_csv reader) = None
         \<and> length (destination (fix_csv reader)) = length (rows_read reader))
      \<or> (outcome (fix_csv reader) \<noteq> None
         \<and> console (fix_csv reader) = []
         \<and> length (destination (fix_csv reader)) \<le> length (rows_read reader)))"
proof (cases reader)
  case Nil
  then show ?thesis by (simp add: fix_csv_def)
next
  case (Cons ev rest)
  show ?thesis
  proof (cases ev)
    case (Inl e)
    with Cons show ?thesis by (simp add: fix_csv_def)
  next
    case (Inr header)
    show ?thesis
    proof (cases "index header column_name")
      case None
      with Cons Inr show ?thesis by (simp add: fix_csv_def)
    next
      case (Some c)
      obtain r out where lp: "row_loop c rest [header] = (r, out)"
        by (cases "row_loop c rest [header]")
      from lp row_loop_written [of c rest "[header]"]
      have out: "out = header # map (process_row c) (rows_read rest)" by simp
      show ?thesis
      proof (cases r)
        case None
        with Cons Inr Some lp out show ?thesis by (simp add: fix_csv_def)
      next
        case (Some e)
        with Cons Inr \<open>index header column_name = Some c\<close> lp out show ?thesis
          by (simp add: fix_csv_def)
      qed
    qed
  qed
qed

text \<open>
  C4, as stated: a data row with no more fields than the column's position comes out
  byte for byte as it stands in the source. It fails on \<open>quoted_row_text\<close>: the second
  row has two fields and the column is the third, the row reaches the destination with
  the fields it was read with, and the writer leaves out the quotes that the source has
  around the first of them.
\<close>

theorem quoted_row_counterexample:
  "quoted_row_text =
     ''Title,Price,Variant Fulfillment Service'' @ [CR, LF] @
     [quotechar] @ ''Gadget'' @ [quotechar] @ '',9'' @ [CR, LF]
   \<and> destination (script quoted_row_text) =
       [[''Title'', ''Price'', ''Variant Fulfillment Service''], [''Gadget'', ''9'']]
   \<and> outfile (script quoted_row_text) =
       ''Title,Price,Variant Fulfillment Service'' @ [CR, LF] @ ''Gadget,9'' @ [CR, LF]
   \<and> outfile (script quoted_row_text) \<noteq> quoted_row_text"
  by (simp add: quoted_row_text_def script_def parser_defs writer_defs fix_csv_def
      column_name_def process_row_def)

text \<open>
  C4, amended: a data row with no more fields than the column's position is written with
  exactly the fields the reader yielded for it, none changed and none added, and the run
  goes on to a normal end.
\<close>

theorem short_row_unchanged:
  assumes "index header column_name = Some c"
    and "i < length data"
    and "length (data ! i) \<le> c"
  shows "destination (fix_csv (Inr header # map Inr data)) ! Suc i = data ! i
    \<and> outcome (fix_csv (Inr header # map Inr data)) = None"
  using assms by (simp add: fix_csv_rows process_row_def)

theorem short_row_unchanged_witness:
  "index [''Title'', ''Price'', ''Variant Fulfillment Service''] column_name = Some 2
   \<and> destination (fix_csv (Inr [''Title'', ''Price'', ''Variant Fulfillment Service''] #
        map Inr [[''Widget'', ''10'', ''third-party''], [''Gadget'', ''9'']])) ! Suc 1
       = [''Gadget'', ''9'']
   \<and> outcome (fix_csv (Inr [''Title'', ''Price'', ''Variant Fulfillment Service''] #
        map Inr [[''Widget'', ''10'', ''third-party''], [''Gadget'', ''9'']])) = None"
proof -
  have h: "index [''Title'', ''Price'', ''Variant Fulfillment Service''] column_name = Some 2"
    by (simp add: column_name_def)
  from short_row_unchanged [OF h, of 1 "[[''Widget'', ''10'', ''third-party''], [''Gadget'', ''9'']]"]
  show ?thesis using h by simp
qed

text \<open>
  C5. When the header holds the column and the parser raises on no row, the destination
  has as many rows as the input, header included, and its rows are the header followed
  by the processed data rows in the order they were read.
\<close>

theorem row_count_and_order:
  assumes "column_name \<in> set header"
  shows "length (destination (fix_csv (Inr header # map Inr data))) = length (header # data)
    \<and> (\<exists>c. index header column_name = Some c
          \<and> destination (fix_csv (Inr header # map Inr data))
              = header # map (process_row c) data)"
proof -
  from assms obtain c where c: "index header column_name = Some c"
    using index_None_iff [of header column_name] by (cases "index header column_name") auto
  then show ?thesis by (simp add: fix_csv_rows)
qed

theorem row_count_and_order_witness:
  "column_name \<in> set [''Title'', ''Variant Fulfillment Service'']
   \<and> length (destination (fix_csv (Inr [''Title'', ''Variant Fulfillment Service''] #
        map Inr [[''Widget'', ''x''], [], [''Gadget'']])))
       = length ([''Title'', ''Variant Fulfillment Service''] # [[''Widget'', ''x''], [], [''Gadget'']])
   \<and> destination (fix_csv (Inr [''Title'', ''Variant Fulfillment Service''] #
        map Inr [[''Widget'', ''x''], [], [''Gadget'']]))
       = [[''Title'', ''Variant Fulfillment Service''], [''Widget'', ''manual''], [], [''Gadget'']]"
proof -
  have h: "column_name \<in> set [''Title'', ''Variant Fulfillment Service'']"
    by (simp add: column_name_def)
  from row_count_and_order [OF h, of "[[''Widget'', ''x''], [], [''Gadget'']]"]
  show ?thesis using h
    by (auto simp add: column_name_def process_row_def replacement_def)
qed

text \<open>
  C6. In a data row long enough to hold the column, every field at another position is
  to come out as it went in. The code breaks this on \<open>embedded_crlf_text\<close>: the first
  field of the data row is \<^verbatim>\<open>line1\r\nline2\<close> in the source, as the parser finds when
  it is given the lines of the file as they are, and the run writes
  \<^verbatim>\<open>line1\nline2\<close> in its place, because the source is opened without
  \<^verbatim>\<open>newline=''\<close> and text mode has rewritten the line break before the parser sees it.
\<close>

theorem embedded_crlf_field_changed:
  "csv_reader (untranslated_lines embedded_crlf_text) =
     [Inr [''Title'', ''Variant Fulfillment Service''],
      Inr [''line1'' @ [CR, LF] @ ''line2'', ''third-party'']]
   \<and> outcome (script embedded_crlf_text) = None
   \<and> destination (script embedded_crlf_text) =
       [[''Title'', ''Variant Fulfillment Service''],
        [''line1'' @ [LF] @ ''line2'', ''manual'']]
   \<and> outfile (script embedded_crlf_text) =
       ''Title,Variant Fulfillment Service'' @ [CR, LF] @
       [quotechar] @ ''line1'' @ [LF] @ ''line2'' @ [quotechar] @ '',manual'' @ [CR, LF]"
  by (simp add: embedded_crlf_text_def script_def parser_defs writer_defs fix_csv_def
      column_name_def process_row_def replacement_def)

text \<open>
  C7, as stated: the header reaches the destination identical to the first row of the
  source. It fails on \<open>quoted_header_text\<close>, a source that is its header line alone: the
  destination receives the line without the quotes that the source has around the first
  field.
\<close>

theorem quoted_header_counterexample:
  "quoted_header_text =
     [quotechar] @ ''Title'' @ [quotechar] @ '',Variant Fulfillment Service'' @ [CR, LF]
   \<and> outcome (script quoted_header_text) = None
   \<and> outfile (script quoted_header_text) = ''Title,Variant Fulfillment Service'' @ [CR, LF]
   \<and> outfile (script quoted_header_text) \<noteq> quoted_header_text"
  by (simp add: quoted_header_text_def script_def parser_defs writer_defs fix_csv_def
      column_name_def)

text \<open>
  C7, amended: whenever a header is read, it is the first row handed to the writer, with
  exactly the fields the reader yielded for it; this holds for every continuation of the
  reader and for every way the run ends.
\<close>

theorem header_written_unchanged:
  "\<exists>rows. destination (fix_csv (Inr header # rest)) = header # rows"
proof (cases "index header column_name")
  case None
  then show ?thesis by (simp add: fix_csv_def)
next
  case (Some c)
  obtain r out where lp: "row_loop c rest [header] = (r, out)"
    by (cases "row_loop c rest [header]")
  with row_loop_written [of c rest "[header]"]
  have "out = header # map (process_row c) (rows_read rest)" by simp
  with Some lp show ?thesis by (cases r) (simp_all add: fix_csv_def)
qed

text \<open>
  C8. Running the pass on the rows of its own destination gives the same outcome, the
  same destination and the same printed lines as the first run, for every input on which
  the parser raises nothing.
\<close>

theorem fix_csv_idempotent:
  "fix_csv (map Inr (destination (fix_csv (map Inr rows)))) = fix_csv (map Inr rows)"
proof (cases rows)
  case Nil
  then show ?thesis by (simp add: fix_csv_def)
next
  case (Cons header data)
  show ?thesis
  proof (cases "index header column_name")
    case None
    then have "column_name \<notin> set header" by (simp add: index_None_iff)
    then have "fix_csv (Inr header # rest) =
        \<lparr>outcome = Some ValueError, destination = [header], console = []\<rparr>" for rest
      by (rule fix_csv_missing_column)
    with Cons show ?thesis by simp
  next
    case (Some c)
    let ?once = "\<lparr>outcome = None, destination = header # map (process_row c) data,
      console = [saved_message, changed_message c]\<rparr>"
    have again: "map (process_row c) (map (process_row c) data) = map (process_row c) data"
      by (induction data) (simp_all add: process_row_idem)
    from Cons have run1: "fix_csv (map Inr rows) = ?once"
      using fix_csv_rows [OF Some, of data] by simp
    have "(map Inr (destination ?once) :: reader) =
        Inr header # map Inr (map (process_row c) data)"
      by (simp del: map_map)
    then have "fix_csv (map Inr (destination ?once)) =
        fix_csv (Inr header # map Inr (map (process_row c) data))"
      by (simp only:)
    also have "\<dots> = ?once"
      using fix_csv_rows [OF Some, of "map (process_row c) data"] by (simp only: again)
    finally show ?thesis by (simp only: run1)
  qed
qed




text \<open>
  C10. When the column name stands at two positions of the header and the earlier one is
  its first occurrence, the run writes \<^verbatim>\<open>manual\<close> at the earlier position, leaves the
  field at the later position of every data row as it was read, and prints, as its second
  line, the message with the decimal numeral of the earlier position.
\<close>

theorem first_occurrence_used:
  assumes "p < q" and "q < length header"
    and "header ! p = column_name" and "header ! q = column_name"
    and "\<forall>j<p. header ! j \<noteq> column_name"
    and "i < length data" and "q < length (data ! i)"
  shows "console (fix_csv (Inr header # map Inr data)) =
      [[CHR 0xE2, CHR 0x9C, CHR 0x85] @ '' Fixed CSV saved to product_template_final.csv'',
       ''   Changed column '' @ str p @ '' (Variant Fulfillment Service) to ''
         @ [CHR 0x27] @ ''manual'' @ [CHR 0x27]]
    \<and> decimal (str p) = p
    \<and> set (str p) \<subseteq> set ''0123456789''
    \<and> destination (fix_csv (Inr header # map Inr data)) ! Suc i ! p = ''manual''
    \<and> destination (fix_csv (Inr header # map Inr data)) ! Suc i ! q = data ! i ! q"
proof -
  from assms(1,2) have "p < length header" by simp
  with assms(3,5) have c: "index header column_name = Some p"
    by (intro index_firstI)
  from assms(1,7) have "p < length (data ! i)" by simp
  with assms(1,6) have
    "destination (fix_csv (Inr header # map Inr data)) ! Suc i ! p = ''manual''
     \<and> destination (fix_csv (Inr header # map Inr data)) ! Suc i ! q = data ! i ! q"
    by (simp add: fix_csv_rows [OF c] process_row_def replacement_def)
  moreover have "console (fix_csv (Inr header # map Inr data)) =
      [[CHR 0xE2, CHR 0x9C, CHR 0x85] @ '' Fixed CSV saved to product_template_final.csv'',
       ''   Changed column '' @ str p @ '' (Variant Fulfillment Service) to ''
         @ [CHR 0x27] @ ''manual'' @ [CHR 0x27]]"
    by (simp add: fix_csv_rows [OF c] saved_message_def output_file_def changed_message_def
        column_name_def replacement_def)
  ultimately show ?thesis using decimal_str [of p] str_digits [of p] by blast
qed

theorem first_occurrence_used_witness:
  "console (fix_csv (Inr [''Variant Fulfillment Service'', ''Variant Fulfillment Service''] #
        map Inr [[''a'', ''b'']])) =
      [[CHR 0xE2, CHR 0x9C, CHR 0x85] @ '' Fixed CSV saved to product_template_final.csv'',
       ''   Changed column 0 (Variant Fulfillment Service) to ''
         @ [CHR 0x27] @ ''manual'' @ [CHR 0x27]]
   \<and> destination (fix_csv (Inr [''Variant Fulfillment Service'', ''Variant Fulfillment Service''] #
        map Inr [[''a'', ''b'']])) ! Suc 0 ! 0 = ''manual''
   \<and> destination (fix_csv (Inr [''Variant Fulfillment Service'', ''Variant Fulfillment Service''] #
        map Inr [[''a'', ''b'']])) ! Suc 0 ! 1 = ''b''"
proof -
  have h: "(0::nat) < 1"
    "1 < length [''Variant Fulfillment Service'', ''Variant Fulfillment Service'']"
    "[''Variant Fulfillment Service'', ''Variant Fulfillment Service''] ! 0 = column_name"
    "[''Variant Fulfillment Service'', ''Variant Fulfillment Service''] ! 1 = column_name"
    "\<forall>j<0. [''Variant Fulfillment Service'', ''Variant Fulfillment Service''] ! j \<noteq> column_name"
    "(0::nat) < length [[''a'', ''b'']]"
    "1 < length ([[''a'', ''b'']] ! 0)"
    by (simp_all add: column_name_def)
  from first_occurrence_used [OF h]
  show ?thesis by (simp add: str.simps digit_def)
qed

end
